theory Spec2Isabelle
  imports Main "HOL-Library.Sublist"
begin

section \<open>Strings\<close>

text \<open>
  A JavaScript string is modelled as a \<open>string\<close> (a list of 8-bit characters): the model
  covers the replies whose UTF-16 code units lie below 256. Within that range the white
  space of \<^verbatim>\<open>String.prototype.trim\<close>, of the regular expression class \<^verbatim>\<open>\s\<close> and of
  \<^verbatim>\<open>parseFloat\<close> is TAB, LF, VT, FF, CR, SPACE and NBSP; the class \<^verbatim>\<open>\w\<close> is
  \<^verbatim>\<open>[A-Za-z0-9_]\<close>.
\<close>

definition isSpace :: "char \<Rightarrow> bool" where
  "isSpace c = (c \<in> set [CHR 0x09, CHR 0x0A, CHR 0x0B, CHR 0x0C, CHR 0x0D, CHR '' '', CHR 0xA0])"

definition isWord :: "char \<Rightarrow> bool" where
  "isWord c =
     (let n = (of_char c :: nat)
      in (48 \<le> n \<and> n \<le> 57) \<or> (65 \<le> n \<and> n \<le> 90) \<or> n = 95 \<or> (97 \<le> n \<and> n \<le> 122))"

definition isDigit :: "char \<Rightarrow> bool" where
  "isDigit c = (let n = (of_char c :: nat) in 48 \<le> n \<and> n \<le> 57)"

definition notRParen :: "char \<Rightarrow> bool" where
  "notRParen c = (c \<noteq> CHR '')'')"

text \<open>\<^verbatim>\<open>s.trim()\<close>: white space removed at both ends.\<close>

definition trimStart :: "string \<Rightarrow> string" where
  "trimStart s = dropWhile isSpace s"

definition trim :: "string \<Rightarrow> string" where
  "trim s = rev (dropWhile isSpace (rev (dropWhile isSpace s)))"

text \<open>\<^verbatim>\<open>s.startsWith(kw)\<close>.\<close>

definition startsWith :: "string \<Rightarrow> string \<Rightarrow> bool" where
  "startsWith s kw = prefix kw s"

text \<open>
  \<^verbatim>\<open>s.replace(pat, rep)\<close> with a string pattern: the first occurrence of \<open>pat\<close>,
  wherever it stands, is replaced; a string without the pattern is returned as it is.
  (The replacement the source passes is the empty string, so the \<^verbatim>\<open>$\<close> patterns of a
  replacement play no part.)
\<close>

fun replaceFirst :: "string \<Rightarrow> string \<Rightarrow> string \<Rightarrow> string" where
  "replaceFirst pat rep [] = (if pat = [] then rep else [])"
| "replaceFirst pat rep (c # cs) =
     (if prefix pat (c # cs) then rep @ drop (length pat) (c # cs)
      else c # replaceFirst pat rep cs)"

text \<open>\<^verbatim>\<open>s.split(",")\<close>: the pieces between the separators; never an empty array.\<close>

fun split :: "char \<Rightarrow> string \<Rightarrow> string list" where
  "split sep [] = [[]]"
| "split sep (c # cs) =
     (if c = sep then [] # split sep cs
      else (case split sep cs of
              [] \<Rightarrow> [[c]]
            | p # ps \<Rightarrow> (c # p) # ps))"

text \<open>\<^verbatim>\<open>s.replace(/"/g, "")\<close>: every double quote removed.\<close>

definition removeQuotes :: "string \<Rightarrow> string" where
  "removeQuotes s = filter (\<lambda>c. c \<noteq> CHR 0x22) s"

text \<open>The substring test used to state where \<open>replaceFirst\<close> leaves a string alone.\<close>

fun contains :: "string \<Rightarrow> string \<Rightarrow> bool" where
  "contains pat [] = (pat = [])"
| "contains pat (c # cs) = (prefix pat (c # cs) \<or> contains pat cs)"

section \<open>Data model\<close>

datatype AgentActivityType = Thought | Action | Response | Elicitation | Error | Prompt

text \<open>
  \<open>Content\<close>: either a typed body, or an action with its tool name, its raw parameter
  (\<open>null\<close> is \<open>None\<close>) and, once executed, its result (absent is \<open>None\<close>).
\<close>

datatype Content =
    TextContent AgentActivityType string
  | ActionContent string "string option" "string option"

fun contentType :: "Content \<Rightarrow> AgentActivityType" where
  "contentType (TextContent ty b) = ty"
| "contentType (ActionContent a p r) = Action"

datatype BaseMessage = HumanMessage string | AIMessage string | SystemMessage string

text \<open>
  What a \<^verbatim>\<open>throw\<close> carries: an \<^verbatim>\<open>Error\<close> with its message, the
  \<^verbatim>\<open>UnreachableCaseError\<close> of \<^verbatim>\<open>../types\<close> with the value it was built from, or a
  value that is not an \<^verbatim>\<open>Error\<close>.
\<close>

datatype CaseValue = TypeValue AgentActivityType | ActionValue string

datatype exn = JsError string | UnreachableCaseError CaseValue | NonError

text \<open>
  Modelled from the spec: \<^verbatim>\<open>isToolName\<close> and \<^verbatim>\<open>ToolName\<close> are declared in
  \<^verbatim>\<open>../types\<close>, which is not among the sources. The spec gives the closed set of tool
  names (\<^verbatim>\<open>getCoordinates\<close>, \<^verbatim>\<open>getWeather\<close>, \<^verbatim>\<open>getTime\<close>); the \<^verbatim>\<open>switch\<close> of
  \<^verbatim>\<open>executeAction\<close> lists the same three.
\<close>

definition toolNames :: "string list" where
  "toolNames = [''getCoordinates'', ''getWeather'', ''getTime'']"

definition isToolName :: "string \<Rightarrow> bool" where
  "isToolName s = (s \<in> set toolNames)"

section \<open>The response classifier\<close>

definition typeToKeyword :: "(AgentActivityType \<times> string) list" where
  "typeToKeyword =
     [(Thought, ''THINKING:''), (Action, ''ACTION:''), (Response, ''RESPONSE:''),
      (Elicitation, ''ELICITATION:''), (Error, ''ERROR:'')]"

text \<open>\<^verbatim>\<open>typeToKeyword[type]\<close>; a missing key reads \<^verbatim>\<open>undefined\<close>.\<close>

definition keywordOf :: "AgentActivityType \<Rightarrow> string" where
  "keywordOf ty = (case map_of typeToKeyword ty of Some kw \<Rightarrow> kw | None \<Rightarrow> ''undefined'')"

text \<open>
  The regular expression \<^verbatim>\<open>/ACTION:\s*(\w+)\(([^)]+)\)/\<close> tried at the head of a string.
  Each greedy quantifier is followed by an atom that none of the characters it ranges over
  can match (\<^verbatim>\<open>\s*\<close> by a word character, \<^verbatim>\<open>\w+\<close> by an opening parenthesis, \<^verbatim>\<open>[^)]+\<close>
  by a closing one), so giving characters back never helps and the match takes the longest
  run each time. The result is the two capture groups.
\<close>

definition matchActionAt :: "string \<Rightarrow> (string \<times> string) option" where
  "matchActionAt s =
     (if prefix ''ACTION:'' s then
        (let s1 = dropWhile isSpace (drop 7 s);
             name = takeWhile isWord s1
         in if name = [] then None
            else (case dropWhile isWord s1 of
                    [] \<Rightarrow> None
                  | c # s3 \<Rightarrow>
                      if c \<noteq> CHR ''(''  then None
                      else (let params = takeWhile notRParen s3
                            in if params = [] then None
                               else (case dropWhile notRParen s3 of
                                       [] \<Rightarrow> None
                                     | d # s5 \<Rightarrow> Some (name, params)))))
      else None)"

text \<open>
  \<^verbatim>\<open>response.match(re)\<close> without the \<^verbatim>\<open>g\<close> flag: the expression is not anchored, so
  the leftmost position where it matches is taken.
\<close>

fun actionMatch :: "string \<Rightarrow> (string \<times> string) option" where
  "actionMatch [] = None"
| "actionMatch (c # cs) =
     (case matchActionAt (c # cs) of
        Some m \<Rightarrow> Some m
      | None \<Rightarrow> actionMatch cs)"

text \<open>
  \<^verbatim>\<open>mapResponseToLinearActivityContent\<close>. An \<^verbatim>\<open>Action\<close> whose expression does not
  match falls through to the \<^verbatim>\<open>default\<close> branch of the \<^verbatim>\<open>switch\<close>.
\<close>

definition mapResponseToLinearActivityContent :: "string \<Rightarrow> exn + Content" where
  "mapResponseToLinearActivityContent response =
     (let mappedType = find (\<lambda>(ty, keyword). startsWith response keyword) typeToKeyword;
          ty = (case mappedType of Some (t, keyword) \<Rightarrow> t | None \<Rightarrow> Thought)
      in if ty = Thought \<or> ty = Response \<or> ty = Elicitation \<or> ty = Error then
           Inr (TextContent ty (trim (replaceFirst (keywordOf ty) [] response)))
         else if ty = Action then
           (case actionMatch response of
              Some (toolNameRaw, params) \<Rightarrow>
                if \<not> isToolName toolNameRaw then
                  Inl (JsError (''Invalid tool name: '' @ toolNameRaw))
                else
                  Inr (ActionContent toolNameRaw (if params = [] then None else Some params) None)
            | None \<Rightarrow> Inl (UnreachableCaseError (TypeValue ty)))
         else Inl (UnreachableCaseError (TypeValue ty)))"

section \<open>Numbers and JSON text\<close>

text \<open>
  \<^verbatim>\<open>parseFloat\<close> reads the longest prefix of the string, after its leading white space,
  that is a decimal literal (an optional sign, then \<^verbatim>\<open>Infinity\<close>, or digits with an
  optional fraction and exponent), and returns \<^verbatim>\<open>NaN\<close> when there is none. The number
  read is represented by the literal it was read from: the controller only tests it with
  \<^verbatim>\<open>isNaN\<close> and hands it to the tool.
\<close>

datatype jsnum = NaN | Num string

definition isNaN :: "jsnum \<Rightarrow> bool" where
  "isNaN x = (x = NaN)"

definition exponentPart :: "string \<Rightarrow> string" where
  "exponentPart s =
     (case s of
        [] \<Rightarrow> []
      | e # r \<Rightarrow>
          if e = CHR ''e'' \<or> e = CHR ''E'' then
            (case r of
               [] \<Rightarrow> []
             | c # r2 \<Rightarrow>
                 if c = CHR ''+'' \<or> c = CHR ''-'' then
                   (if takeWhile isDigit r2 = [] then [] else e # c # takeWhile isDigit r2)
                 else
                   (if takeWhile isDigit r = [] then [] else e # takeWhile isDigit r))
          else [])"

definition unsignedPrefix :: "string \<Rightarrow> string option" where
  "unsignedPrefix s =
     (if prefix ''Infinity'' s then Some ''Infinity''
      else if takeWhile isDigit s \<noteq> [] then
        (case dropWhile isDigit s of
           [] \<Rightarrow> Some (takeWhile isDigit s)
         | c # r1 \<Rightarrow>
             if c = CHR ''.'' then
               Some (takeWhile isDigit s @ [c] @ takeWhile isDigit r1
                       @ exponentPart (dropWhile isDigit r1))
             else Some (takeWhile isDigit s @ exponentPart (c # r1)))
      else
        (case s of
           [] \<Rightarrow> None
         | c # r1 \<Rightarrow>
             if c = CHR ''.'' \<and> takeWhile isDigit r1 \<noteq> [] then
               Some (c # takeWhile isDigit r1 @ exponentPart (dropWhile isDigit r1))
             else None))"

definition parseFloat :: "string \<Rightarrow> jsnum" where
  "parseFloat s =
     (case trimStart s of
        [] \<Rightarrow> NaN
      | c # r \<Rightarrow>
          if c = CHR ''+'' \<or> c = CHR ''-'' then
            (case unsignedPrefix r of None \<Rightarrow> NaN | Some u \<Rightarrow> Num (c # u))
          else
            (case unsignedPrefix (c # r) of None \<Rightarrow> NaN | Some u \<Rightarrow> Num u))"

text \<open>\<^verbatim>\<open>JSON.stringify\<close> of a string: quoted, with the escapes of JSON.\<close>

definition hexDigit :: "nat \<Rightarrow> char" where
  "hexDigit n = ''0123456789abcdef'' ! (n mod 16)"

definition jsonEscape :: "char \<Rightarrow> string" where
  "jsonEscape c =
     (if c = CHR 0x22 then [CHR 0x5C, CHR 0x22]
      else if c = CHR 0x5C then [CHR 0x5C, CHR 0x5C]
      else if c = CHR 0x08 then [CHR 0x5C, CHR ''b'']
      else if c = CHR 0x0C then [CHR 0x5C, CHR ''f'']
      else if c = CHR 0x0A then [CHR 0x5C, CHR ''n'']
      else if c = CHR 0x0D then [CHR 0x5C, CHR ''r'']
      else if c = CHR 0x09 then [CHR 0x5C, CHR ''t'']
      else if (of_char c :: nat) < 32 then
        [CHR 0x5C, CHR ''u'', CHR ''0'', CHR ''0'',
         hexDigit (of_char c div 16), hexDigit (of_char c mod 16)]
      else [c])"

definition JSON_stringify :: "string \<Rightarrow> string" where
  "JSON_stringify s = CHR 0x22 # concat (map jsonEscape s) @ [CHR 0x22]"

section \<open>The collaborators\<close>

text \<open>
  An activity of the store, with the time it was created, and a page of the paginated
  listing (\<^verbatim>\<open>nodes\<close>, \<^verbatim>\<open>pageInfo.hasNextPage\<close>, \<^verbatim>\<open>pageInfo.endCursor\<close>).
\<close>

record AgentActivity =
  content :: Content
  createdAt :: nat

record Connection =
  nodes :: "AgentActivity list"
  hasNextPage :: bool
  endCursor :: "string option"

datatype ToolArgs = CityName string | LatLong jsnum jsnum

text \<open>
  The outside of the controller, as the controller sees it:
  \<^item> \<open>prompt\<close>: the system prompt of \<^verbatim>\<open>./prompt\<close> (not among the sources);
  \<^item> \<open>invoke w k msgs\<close>: what \<^verbatim>\<open>model.invoke\<close> does on the call of iteration \<open>k\<close>: a
    reply, or a thrown value;
  \<^item> \<open>runTool w k name args\<close>: what the tool called in iteration \<open>k\<close> does: a result
    string, or a thrown value;
  \<^item> \<open>activities w session cursor\<close>: the page of the session's activities after a cursor;
  \<^item> \<open>unreachableText\<close>: the text the \<^verbatim>\<open>catch\<close> block reads from an
    \<^verbatim>\<open>UnreachableCaseError\<close> (a class of \<^verbatim>\<open>../types\<close>, not among the sources).

  The activity store acknowledges every \<^verbatim>\<open>createAgentActivity\<close> and every listing.
\<close>

record World =
  prompt :: string
  invoke :: "nat \<Rightarrow> BaseMessage list \<Rightarrow> exn + string"
  runTool :: "nat \<Rightarrow> string \<Rightarrow> ToolArgs \<Rightarrow> exn + string"
  activities :: "string \<Rightarrow> string option \<Rightarrow> Connection"
  unreachableText :: "CaseValue \<Rightarrow> string"

text \<open>What the controller does to the outside, in order.\<close>

datatype event =
    Invoke "BaseMessage list"
  | CreateAgentActivity string Content
  | ToolExec string ToolArgs
  | Delay nat

text \<open>\<^verbatim>\<open>error instanceof Error ? error.message : "Unknown error"\<close>.\<close>

definition errorText :: "World \<Rightarrow> exn \<Rightarrow> string" where
  "errorText w e =
     (case e of
        JsError m \<Rightarrow> m
      | UnreachableCaseError v \<Rightarrow> unreachableText w v
      | NonError \<Rightarrow> ''Unknown error'')"

section \<open>The controller\<close>

definition MAX_ITERATIONS :: nat where
  "MAX_ITERATIONS = 10"

definition maxIterationsMessage :: string where
  "maxIterationsMessage =
     ''The agent has reached the maximum number of iterations and will now stop.''"

text \<open>\<^verbatim>\<open>callLangGraphAgent\<close>: the system prompt first, a failure rethrown with a prefix.\<close>

definition callLangGraphAgent ::
  "World \<Rightarrow> nat \<Rightarrow> BaseMessage list \<Rightarrow> event list \<times> (exn + string)" where
  "callLangGraphAgent w k messages =
     (let allMessages = SystemMessage (prompt w) # messages
      in ([Invoke allMessages],
          (case invoke w k allMessages of
             Inr response \<Rightarrow> Inr response
           | Inl error \<Rightarrow> Inl (JsError (''Anthropic API error: '' @ errorText w error)))))"

text \<open>The test \<^verbatim>\<open>!parameter\<close>, and \<^verbatim>\<open>parameter || null\<close>.\<close>

definition parameterMissing :: "string option \<Rightarrow> bool" where
  "parameterMissing parameter = (case parameter of None \<Rightarrow> True | Some p \<Rightarrow> p = [])"

definition orNull :: "string option \<Rightarrow> string option" where
  "orNull parameter = (if parameterMissing parameter then None else parameter)"

text \<open>
  \<^verbatim>\<open>executeAction\<close>: the events are the tool call, when one is made. The results of the
  tools are strings.
\<close>

definition callTool ::
  "World \<Rightarrow> nat \<Rightarrow> string \<Rightarrow> ToolArgs \<Rightarrow> (string \<Rightarrow> string) \<Rightarrow> event list \<times> (exn + string)" where
  "callTool w k action args wrap =
     ([ToolExec action args],
      (case runTool w k action args of Inl e \<Rightarrow> Inl e | Inr r \<Rightarrow> Inr (wrap r)))"

definition executeAction ::
  "World \<Rightarrow> nat \<Rightarrow> string \<Rightarrow> string option \<Rightarrow> event list \<times> (exn + string)" where
  "executeAction w k action parameter =
     (case parameter of
        None \<Rightarrow> ([], Inl (JsError ''Parameter is required for action execution''))
      | Some p \<Rightarrow>
          if parameterMissing parameter then
            ([], Inl (JsError ''Parameter is required for action execution''))
          else if action = ''getCoordinates'' then
            callTool w k action (CityName (removeQuotes p)) JSON_stringify
          else if action = ''getWeather'' then
            (case map (\<lambda>q. parseFloat (trim q)) (split (CHR '','') p) of
               lat # long # others \<Rightarrow>
                 if \<not> isNaN lat \<and> \<not> isNaN long then
                   callTool w k action (LatLong lat long) JSON_stringify
                 else ([], Inl (JsError ''Invalid parameter for getWeather action''))
             | _ \<Rightarrow> ([], Inl (JsError ''Invalid parameter for getWeather action'')))
          else if action = ''getTime'' then
            (case map (\<lambda>q. parseFloat (trim q)) (split (CHR '','') p) of
               lat # long # others \<Rightarrow>
                 if \<not> isNaN lat \<and> \<not> isNaN long then
                   callTool w k action (LatLong lat long) (\<lambda>r. r)
                 else ([], Inl (JsError ''Invalid parameter for getTime action''))
             | _ \<Rightarrow> ([], Inl (JsError ''Invalid parameter for getTime action'')))
          else ([], Inl (UnreachableCaseError (ActionValue action))))"

text \<open>The variables of \<^verbatim>\<open>handleUserPrompt\<close> that an iteration changes, and the events so far.\<close>

record LoopState =
  messages :: "BaseMessage list"
  taskComplete :: bool
  trace :: "event list"

definition logEvents :: "event list \<Rightarrow> LoopState \<Rightarrow> LoopState" where
  "logEvents evs st = st\<lparr>trace := trace st @ evs\<rparr>"

definition createAgentActivity :: "string \<Rightarrow> Content \<Rightarrow> LoopState \<Rightarrow> LoopState" where
  "createAgentActivity agentSessionId c st = logEvents [CreateAgentActivity agentSessionId c] st"

definition push :: "BaseMessage \<Rightarrow> LoopState \<Rightarrow> LoopState" where
  "push m st = st\<lparr>messages := messages st @ [m]\<rparr>"

definition complete :: "LoopState \<Rightarrow> LoopState" where
  "complete st = st\<lparr>taskComplete := True\<rparr>"

text \<open>
  The \<^verbatim>\<open>try\<close> block of one iteration: the state where it ends, and the value thrown, if
  one was. What was published before a throw stays published.
\<close>

definition tryBlock :: "World \<Rightarrow> string \<Rightarrow> nat \<Rightarrow> LoopState \<Rightarrow> LoopState \<times> exn option" where
  "tryBlock w agentSessionId k st =
     (case callLangGraphAgent w k (messages st) of
        (evs0, Inl e) \<Rightarrow> (logEvents evs0 st, Some e)
      | (evs0, Inr response) \<Rightarrow>
          (let st1 = logEvents evs0 st
           in case mapResponseToLinearActivityContent response of
                Inl e \<Rightarrow> (st1, Some e)
              | Inr (ActionContent toolName parameter res) \<Rightarrow>
                  (let st2 = createAgentActivity agentSessionId
                               (ActionContent toolName parameter res) st1
                   in case executeAction w k toolName parameter of
                        (evs, Inl e) \<Rightarrow> (logEvents evs st2, Some e)
                      | (evs, Inr toolResult) \<Rightarrow>
                          (let st3 = push (HumanMessage (''Tool result: '' @ toolResult))
                                       (push (AIMessage response) (logEvents evs st2));
                               resultContent =
                                 ActionContent toolName (orNull parameter) (Some toolResult)
                           in (logEvents [Delay 1000]
                                 (createAgentActivity agentSessionId resultContent st3), None)))
              | Inr (TextContent ty b) \<Rightarrow>
                  if ty = Thought then
                    (logEvents [Delay 1000]
                       (push (AIMessage response)
                          (createAgentActivity agentSessionId (TextContent ty b) st1)), None)
                  else if ty = Response \<or> ty = Error \<or> ty = Elicitation then
                    (complete (createAgentActivity agentSessionId (TextContent ty b) st1), None)
                  else (st1, None)))"

text \<open>One iteration: the \<^verbatim>\<open>try\<close> block and its \<^verbatim>\<open>catch\<close>.\<close>

definition iteration :: "World \<Rightarrow> string \<Rightarrow> nat \<Rightarrow> LoopState \<Rightarrow> LoopState" where
  "iteration w agentSessionId k st =
     (case tryBlock w agentSessionId k st of
        (st', None) \<Rightarrow> st'
      | (st', Some error) \<Rightarrow>
          complete
            (createAgentActivity agentSessionId
               (TextContent Error (''Agent error: '' @ errorText w error)) st'))"

text \<open>
  The \<^verbatim>\<open>while\<close> loop; \<open>iterations\<close> is the counter, incremented first in the body. The
  result is the counter and the state at the exit.
\<close>

function turnLoop :: "World \<Rightarrow> string \<Rightarrow> nat \<Rightarrow> LoopState \<Rightarrow> nat \<times> LoopState" where
  "turnLoop w agentSessionId iterations st =
     (if \<not> taskComplete st \<and> iterations < MAX_ITERATIONS then
        turnLoop w agentSessionId (Suc iterations)
          (iteration w agentSessionId (Suc iterations) st)
      else (iterations, st))"
  by pat_completeness auto
termination
  by (relation "measure (\<lambda>(w, s, iterations, st). MAX_ITERATIONS - iterations)") auto

declare turnLoop.simps [simp del]

section \<open>History reconstruction\<close>

text \<open>The truth value of a cursor: \<^verbatim>\<open>null\<close> and the empty string are false.\<close>

definition truthy :: "string option \<Rightarrow> bool" where
  "truthy c = (case c of None \<Rightarrow> False | Some s \<Rightarrow> s \<noteq> [])"

text \<open>
  The pagination loop of \<^verbatim>\<open>generateMessagesFromPreviousActivities\<close>. Nothing bounds it: a
  listing that always announces a next page keeps it running, which is the value \<open>None\<close>.
\<close>

partial_function (option) fetchPages ::
  "(string option \<Rightarrow> Connection) \<Rightarrow> Connection \<Rightarrow> bool \<Rightarrow> AgentActivity list
     \<Rightarrow> AgentActivity list option" where
  "fetchPages list activitiesConnection hasNext allActivities =
     (if hasNext \<and> truthy (endCursor activitiesConnection) then
        fetchPages list (list (endCursor activitiesConnection))
          (hasNextPage (list (endCursor activitiesConnection)))
          (allActivities @ nodes (list (endCursor activitiesConnection)))
      else Some allActivities)"

declare fetchPages.simps [code]

definition bodyOf :: "Content \<Rightarrow> string" where
  "bodyOf c = (case c of TextContent ty b \<Rightarrow> b | ActionContent a p r \<Rightarrow> [])"

definition keptForHistory :: "AgentActivity \<Rightarrow> bool" where
  "keptForHistory activity =
     (contentType (content activity) = Prompt \<or> contentType (content activity) = Response)"

definition toMessage :: "AgentActivity \<Rightarrow> BaseMessage" where
  "toMessage activity =
     (if contentType (content activity) = Prompt then HumanMessage (bodyOf (content activity))
      else AIMessage (bodyOf (content activity)))"

definition generateMessagesFromPreviousActivities ::
  "World \<Rightarrow> string \<Rightarrow> BaseMessage list option" where
  "generateMessagesFromPreviousActivities w agentSessionId =
     (let first = activities w agentSessionId None
      in case fetchPages (activities w agentSessionId) first (hasNextPage first) (nodes first) of
           None \<Rightarrow> None
         | Some allActivities \<Rightarrow>
             Some (map toMessage (rev (filter keptForHistory allActivities))))"

text \<open>\<^verbatim>\<open>handleUserPrompt\<close>: the state after the check that follows the loop.\<close>

definition initialState :: "string \<Rightarrow> BaseMessage list \<Rightarrow> LoopState" where
  "initialState userPrompt history =
     \<lparr>messages = HumanMessage (if userPrompt = [] then [] else userPrompt) # history,
      taskComplete = False, trace = []\<rparr>"

definition afterLoop :: "string \<Rightarrow> nat \<times> LoopState \<Rightarrow> LoopState" where
  "afterLoop agentSessionId r =
     (case r of
        (iterations, st) \<Rightarrow>
          if \<not> taskComplete st \<and> MAX_ITERATIONS \<le> iterations then
            createAgentActivity agentSessionId (TextContent Error maxIterationsMessage) st
          else st)"

definition handleUserPrompt :: "World \<Rightarrow> string \<Rightarrow> string \<Rightarrow> LoopState option" where
  "handleUserPrompt w agentSessionId userPrompt =
     (case generateMessagesFromPreviousActivities w agentSessionId of
        None \<Rightarrow> None
      | Some history \<Rightarrow>
          Some (afterLoop agentSessionId
                  (turnLoop w agentSessionId 0 (initialState userPrompt history))))"

section \<open>Observations of a run\<close>

text \<open>The calls of the model among the events, and the activities of type error.\<close>

fun isInvoke :: "event \<Rightarrow> bool" where
  "isInvoke (Invoke ms) = True"
| "isInvoke ev = False"

definition modelCalls :: "event list \<Rightarrow> nat" where
  "modelCalls tr = length (filter isInvoke tr)"

fun isErrorActivity :: "event \<Rightarrow> bool" where
  "isErrorActivity (CreateAgentActivity s (TextContent ty b)) = (ty = Error)"
| "isErrorActivity ev = False"

text \<open>
  How the iteration numbered \<open>k\<close> ends when it starts from the messages \<open>ms\<close>: with a
  value thrown by the model call, by the classification or by the execution of the tool;
  with a terminal variant; or with a thought or an executed action, after which the loop
  goes on.
\<close>

datatype Outcome = Continues | Terminal AgentActivityType | Failed exn

definition outcome :: "World \<Rightarrow> nat \<Rightarrow> BaseMessage list \<Rightarrow> Outcome" where
  "outcome w k ms =
     (case snd (callLangGraphAgent w k ms) of
        Inl e \<Rightarrow> Failed e
      | Inr response \<Rightarrow>
          (case mapResponseToLinearActivityContent response of
             Inl e \<Rightarrow> Failed e
           | Inr (ActionContent tool p res) \<Rightarrow>
               (case snd (executeAction w k tool p) of
                  Inl e \<Rightarrow> Failed e
                | Inr toolResult \<Rightarrow> Continues)
           | Inr (TextContent ty b) \<Rightarrow>
               if ty = Response \<or> ty = Elicitation \<or> ty = Error then Terminal ty
               else Continues))"

text \<open>
  The state after \<open>j\<close> further iterations of a loop whose counter stands at \<open>n\<close>, the
  loop condition left aside.
\<close>

fun stateAfter :: "World \<Rightarrow> string \<Rightarrow> nat \<Rightarrow> LoopState \<Rightarrow> nat \<Rightarrow> LoopState" where
  "stateAfter w agentSessionId n st 0 = st"
| "stateAfter w agentSessionId n st (Suc j) =
     iteration w agentSessionId (n + Suc j) (stateAfter w agentSessionId n st j)"

text \<open>
  A listing that serves the pages \<open>pages\<close> from the cursor \<open>c\<close> on: each page but the
  last announces a next page and gives a cursor that counts as true, under which the
  following page is found; the last page announces none.
\<close>

fun serves ::
  "(string option \<Rightarrow> Connection) \<Rightarrow> string option \<Rightarrow> AgentActivity list list \<Rightarrow> bool" where
  "serves list c [] = False"
| "serves list c [p] = (nodes (list c) = p \<and> \<not> hasNextPage (list c))"
| "serves list c (p # q # ps) =
     (nodes (list c) = p \<and> hasNextPage (list c) \<and> truthy (endCursor (list c))
      \<and> serves list (endCursor (list c)) (q # ps))"


section \<open>Scenarios\<close>

text \<open>
  Concrete collaborators on which the properties below are exercised: a session without
  earlier activities, a model that answers from a script, tools that answer with a fixed
  string.
\<close>

definition quiet :: "string option \<Rightarrow> Connection" where
  "quiet c = \<lparr>nodes = [], hasNextPage = False, endCursor = None\<rparr>"

definition scripted :: "(nat \<Rightarrow> exn + string) \<Rightarrow> World" where
  "scripted replies =
     \<lparr>prompt = ''You are a weather bot.'',
      invoke = (\<lambda>k ms. replies k),
      runTool = (\<lambda>k name args. Inr ''48.85,2.35''),
      activities = (\<lambda>s. quiet),
      unreachableText = (\<lambda>v. ''Unreachable case'')\<rparr>"

definition parisReplies :: "nat \<Rightarrow> exn + string" where
  "parisReplies k =
     (if k = 1 then Inr ''THINKING: I should find coordinates first''
      else if k = 2 then
        Inr (''ACTION: getCoordinates('' @ [CHR 0x22] @ ''Paris'' @ [CHR 0x22] @ '')'')
      else Inr ''RESPONSE: It is 18 C and partly cloudy in Paris.'')"

definition thinkingReplies :: "nat \<Rightarrow> exn + string" where
  "thinkingReplies k = Inr ''THINKING: still looking''"

definition act :: "AgentActivityType \<Rightarrow> string \<Rightarrow> nat \<Rightarrow> AgentActivity" where
  "act ty b t = \<lparr>content = TextContent ty b, createdAt = t\<rparr>"

definition pagedListing :: "string option \<Rightarrow> Connection" where
  "pagedListing c =
     (if c = None then
        \<lparr>nodes = [act Response ''Sunny.'' 5, act Thought ''Look it up'' 4],
         hasNextPage = True, endCursor = Some ''c1''\<rparr>
      else if c = Some ''c1'' then
        \<lparr>nodes = [\<lparr>content = ActionContent ''getTime'' (Some ''1,2'') None, createdAt = 3\<rparr>],
         hasNextPage = True, endCursor = Some ''c2''\<rparr>
      else if c = Some ''c2'' then
        \<lparr>nodes = [act Prompt ''Weather?'' 1], hasNextPage = False, endCursor = None\<rparr>
      else quiet c)"

definition pagedWorld :: World where
  "pagedWorld = (scripted parisReplies)\<lparr>activities := (\<lambda>s. pagedListing)\<rparr>"

definition badWeatherReplies :: "nat \<Rightarrow> exn + string" where
  "badWeatherReplies k = Inr ''ACTION: getWeather(abc,def)''"

section \<open>Strings and the action expression\<close>

lemma replaceFirst_prefix: "pat \<noteq> [] \<Longrightarrow> replaceFirst pat rep (pat @ rest) = rep @ rest"
  by (cases pat) simp_all

lemma replaceFirst_absent: "\<not> contains pat s \<Longrightarrow> replaceFirst pat rep s = s"
  by (induction s) auto

lemma isWord_not_isSpace: "isWord c \<Longrightarrow> \<not> isSpace c"
  by (auto simp: isWord_def isSpace_def Let_def)

lemma not_isWord_lparen: "\<not> isWord (CHR ''('')"
  by (simp add: isWord_def)

lemma matchActionAt_shape:
  assumes ws: "\<forall>c \<in> set ws. isSpace c"
    and name: "name \<noteq> []" "\<forall>c \<in> set name. isWord c"
    and params: "params \<noteq> []" "\<forall>c \<in> set params. notRParen c"
  shows "matchActionAt (''ACTION:'' @ ws @ name @ ''('' @ params @ '')'' @ rest) = Some (name, params)"
proof -
  obtain n ns where n: "name = n # ns" using name(1) by (cases name) auto
  have s1: "dropWhile isSpace (ws @ name @ CHR ''('' # params @ CHR '')'' # rest)
              = name @ CHR ''('' # params @ CHR '')'' # rest"
    using ws name(2) n by (simp add: dropWhile_append2 isWord_not_isSpace)
  have tn: "takeWhile isWord (name @ CHR ''('' # params @ CHR '')'' # rest) = name"
    using name(2) by (simp add: takeWhile_append2 not_isWord_lparen)
  have dn: "dropWhile isWord (name @ CHR ''('' # params @ CHR '')'' # rest)
              = CHR ''('' # params @ CHR '')'' # rest"
    using name(2) by (simp add: dropWhile_append2 not_isWord_lparen)
  have tp: "takeWhile notRParen (params @ CHR '')'' # rest) = params"
    using params(2) by (simp add: takeWhile_append2 notRParen_def)
  have dp: "dropWhile notRParen (params @ CHR '')'' # rest) = CHR '')'' # rest"
    using params(2) by (simp add: dropWhile_append2 notRParen_def)
  show ?thesis
    using name(1) params(1) by (simp add: matchActionAt_def Let_def s1 tn dn tp dp)
qed

lemma matchActionAt_sound:
  assumes "matchActionAt s = Some (name, params)"
  shows "\<exists>ws rest. s = ''ACTION:'' @ ws @ name @ ''('' @ params @ '')'' @ rest
           \<and> (\<forall>c \<in> set ws. isSpace c) \<and> name \<noteq> [] \<and> (\<forall>c \<in> set name. isWord c)
           \<and> params \<noteq> [] \<and> (\<forall>c \<in> set params. notRParen c)"
proof -
  from assms have pre: "prefix ''ACTION:'' s"
    by (auto simp: matchActionAt_def split: if_splits)
  then obtain t where s: "s = ''ACTION:'' @ t" by (auto simp: prefix_def)
  define s1 where "s1 = dropWhile isSpace t"
  define s2 where "s2 = dropWhile isWord s1"
  from assms s have nm: "name = takeWhile isWord s1" and nn: "name \<noteq> []"
    by (auto simp: matchActionAt_def s1_def Let_def split: if_splits list.splits)
  from assms s obtain s3 where s3: "s2 = CHR ''('' # s3"
    by (auto simp: matchActionAt_def s1_def s2_def Let_def split: if_splits list.splits)
  from assms s s3 have pm: "params = takeWhile notRParen s3" and pn: "params \<noteq> []"
    by (auto simp: matchActionAt_def s1_def s2_def Let_def split: if_splits list.splits)
  from assms s s3 obtain d s5 where s5: "dropWhile notRParen s3 = d # s5"
    by (auto simp: matchActionAt_def s1_def s2_def Let_def split: if_splits list.splits)
  have d: "d = CHR '')''"
    using hd_dropWhile[of notRParen s3] s5 by (simp add: notRParen_def)
  have "t = takeWhile isSpace t @ s1" by (simp add: s1_def)
  moreover have "s1 = name @ s2" by (simp add: nm s2_def)
  moreover have "s3 = params @ d # s5" using s5 pm takeWhile_dropWhile_id[of notRParen s3] by simp
  ultimately have "s = ''ACTION:'' @ takeWhile isSpace t @ name @ ''('' @ params @ '')'' @ s5"
    using s s3 d by simp
  moreover have "\<forall>c \<in> set (takeWhile isSpace t). isSpace c" by (auto dest: set_takeWhileD)
  moreover have "\<forall>c \<in> set name. isWord c" using nm by (auto dest: set_takeWhileD)
  moreover have "\<forall>c \<in> set params. notRParen c" using pm by (auto dest: set_takeWhileD)
  ultimately show ?thesis using nn pn by blast
qed

lemma actionMatch_sound:
  "actionMatch s = Some (name, params) \<Longrightarrow>
     \<exists>pre ws rest. s = pre @ ''ACTION:'' @ ws @ name @ ''('' @ params @ '')'' @ rest
           \<and> (\<forall>c \<in> set ws. isSpace c) \<and> name \<noteq> [] \<and> (\<forall>c \<in> set name. isWord c)
           \<and> params \<noteq> [] \<and> (\<forall>c \<in> set params. notRParen c)"
proof (induction s)
  case Nil
  then show ?case by simp
next
  case (Cons c cs)
  show ?case
  proof (cases "matchActionAt (c # cs)")
    case None
    with Cons.prems have "actionMatch cs = Some (name, params)" by simp
    from Cons.IH[OF this] obtain pre ws rest where
      "cs = pre @ ''ACTION:'' @ ws @ name @ ''('' @ params @ '')'' @ rest"
      "(\<forall>c \<in> set ws. isSpace c) \<and> name \<noteq> [] \<and> (\<forall>c \<in> set name. isWord c)
           \<and> params \<noteq> [] \<and> (\<forall>c \<in> set params. notRParen c)" by blast
    then have "c # cs = (c # pre) @ ''ACTION:'' @ ws @ name @ ''('' @ params @ '')'' @ rest
       \<and> (\<forall>c \<in> set ws. isSpace c) \<and> name \<noteq> [] \<and> (\<forall>c \<in> set name. isWord c)
           \<and> params \<noteq> [] \<and> (\<forall>c \<in> set params. notRParen c)" by simp
    then show ?thesis by blast
  next
    case (Some m)
    with Cons.prems have "matchActionAt (c # cs) = Some (name, params)" by simp
    from matchActionAt_sound[OF this] obtain ws rest where
      "c # cs = [] @ ''ACTION:'' @ ws @ name @ ''('' @ params @ '')'' @ rest
       \<and> (\<forall>c \<in> set ws. isSpace c) \<and> name \<noteq> [] \<and> (\<forall>c \<in> set name. isWord c)
           \<and> params \<noteq> [] \<and> (\<forall>c \<in> set params. notRParen c)" by auto
    then show ?thesis by blast
  qed
qed

lemma actionMatch_shape:
  assumes "\<forall>c \<in> set ws. isSpace c" "name \<noteq> []" "\<forall>c \<in> set name. isWord c"
     "params \<noteq> []" "\<forall>c \<in> set params. notRParen c"
  shows "actionMatch (''ACTION:'' @ ws @ name @ ''('' @ params @ '')'' @ rest) = Some (name, params)"
proof -
  have "matchActionAt (''ACTION:'' @ ws @ name @ ''('' @ params @ '')'' @ rest) = Some (name, params)"
    using assms by (rule matchActionAt_shape)
  then show ?thesis by simp
qed

lemma actionMatch_params_nonempty: "actionMatch r = Some (name, params) \<Longrightarrow> params \<noteq> []"
  using actionMatch_sound by blast

section \<open>The classifier\<close>

lemma classify_text_marker:
  assumes "(ty, kw) \<in> set typeToKeyword" "ty \<noteq> Action"
  shows "mapResponseToLinearActivityContent (kw @ rest) = Inr (TextContent ty (trim rest))"
  using assms
  by (auto simp: typeToKeyword_def mapResponseToLinearActivityContent_def startsWith_def keywordOf_def)

lemma classify_unmarked:
  assumes "\<forall>(ty, kw) \<in> set typeToKeyword. \<not> startsWith r kw" "\<not> contains ''THINKING:'' r"
  shows "mapResponseToLinearActivityContent r = Inr (TextContent Thought (trim r))"
proof -
  have "find (\<lambda>(ty, keyword). startsWith r keyword) typeToKeyword = None"
    using assms(1) by (auto simp: find_None_iff)
  then show ?thesis
    using assms(2) by (simp add: mapResponseToLinearActivityContent_def keywordOf_def typeToKeyword_def replaceFirst_absent)
qed

lemma classify_action:
  assumes "startsWith r ''ACTION:''"
  shows "mapResponseToLinearActivityContent r =
     (case actionMatch r of
        Some (toolNameRaw, params) \<Rightarrow>
          if \<not> isToolName toolNameRaw then Inl (JsError (''Invalid tool name: '' @ toolNameRaw))
          else Inr (ActionContent toolNameRaw (if params = [] then None else Some params) None)
      | None \<Rightarrow> Inl (UnreachableCaseError (TypeValue Action)))"
proof -
  obtain rest where r: "r = ''ACTION:'' @ rest" using assms by (auto simp: startsWith_def prefix_def)
  have "find (\<lambda>(ty, keyword). startsWith r keyword) typeToKeyword = Some (Action, ''ACTION:'')"
    unfolding r by (simp add: typeToKeyword_def startsWith_def)
  then show ?thesis
    by (simp add: mapResponseToLinearActivityContent_def)
qed

lemma classify_Action_only_marked:
  assumes "mapResponseToLinearActivityContent r = Inr (ActionContent tool p res)"
  shows "startsWith r ''ACTION:''"
proof -
  let ?f = "find (\<lambda>(ty, keyword). startsWith r keyword) typeToKeyword"
  have "?f = Some (Action, ''ACTION:'')"
  proof (cases ?f)
    case None
    then show ?thesis using assms by (simp add: mapResponseToLinearActivityContent_def)
  next
    case (Some a)
    then obtain ty kw where a: "a = (ty, kw)" by (cases a)
    from Some a have "(ty, kw) \<in> set typeToKeyword"
      by (auto simp: find_Some_iff in_set_conv_nth)
    moreover from Some a assms have "ty = Action"
      by (auto simp: mapResponseToLinearActivityContent_def split: if_splits)
    ultimately show ?thesis using Some a by (auto simp: typeToKeyword_def)
  qed
  then show ?thesis by (auto simp: find_Some_iff)
qed

lemma classified_action_parameter:
  assumes "mapResponseToLinearActivityContent r = Inr (ActionContent tool p res)"
  shows "\<exists>s. p = Some s \<and> s \<noteq> [] \<and> res = None \<and> isToolName tool \<and> actionMatch r = Some (tool, s)"
proof -
  have s: "startsWith r ''ACTION:''" using assms by (rule classify_Action_only_marked)
  show ?thesis
  proof (cases "actionMatch r")
    case None
    then show ?thesis using assms by (simp add: classify_action[OF s])
  next
    case (Some m)
    obtain n ps where m: "m = (n, ps)" by (cases m)
    have "ps \<noteq> []" using Some m actionMatch_params_nonempty by blast
    then show ?thesis using Some m assms by (auto simp: classify_action[OF s] split: if_splits)
  qed
qed

text \<open>
  C1. The claim asks that a reply which begins with no recognized marker be classified as
  a thought with its text intact up to trimming, no character inside the text removed. The
  code does not do that for the reply \<^verbatim>\<open>so THINKING: hm\<close>: no marker stands at its head,
  trimming leaves it as it is, and yet the body returned is \<^verbatim>\<open>so  hm\<close>, because the
  default branch removes the first \<^verbatim>\<open>THINKING:\<close> wherever it stands. The sibling cases
  keep the text: an unmarked reply with another marker inside is returned whole, and a
  marked reply loses its leading marker only.
\<close>

theorem unmarked_thinking_removed:
  "find (\<lambda>(t, k). startsWith ''so THINKING: hm'' k) typeToKeyword = None
   \<and> trim ''so THINKING: hm'' = ''so THINKING: hm''
   \<and> mapResponseToLinearActivityContent ''so THINKING: hm'' = Inr (TextContent Thought ''so  hm'')
   \<and> mapResponseToLinearActivityContent ''so RESPONSE: hm''
       = Inr (TextContent Thought ''so RESPONSE: hm'')
   \<and> mapResponseToLinearActivityContent ''RESPONSE: so THINKING: hm''
       = Inr (TextContent Response ''so THINKING: hm'')"
  by (simp add: typeToKeyword_def startsWith_def trim_def isSpace_def keywordOf_def
        mapResponseToLinearActivityContent_def)

text \<open>
  C7. A reply that begins with \<^verbatim>\<open>ACTION:\<close> and in which the action expression finds a
  call whose name is not a registered tool name fails to classify, with the error
  \<^verbatim>\<open>Invalid tool name\<close>: for a reply of the form \<^verbatim>\<open>ACTION: NAME(PARAMS)\<close>, for any reply
  by what the expression matches, and for \<^verbatim>\<open>ACTION: bogusTool(1,2)\<close>.
\<close>

theorem unregistered_tool_fails:
  "((\<forall>c \<in> set ws. isSpace c) \<and> name \<noteq> [] \<and> (\<forall>c \<in> set name. isWord c)
      \<and> params \<noteq> [] \<and> (\<forall>c \<in> set params. notRParen c) \<and> \<not> isToolName name
     \<longrightarrow> mapResponseToLinearActivityContent
           (''ACTION:'' @ ws @ name @ ''('' @ params @ '')'' @ rest)
         = Inl (JsError (''Invalid tool name: '' @ name)))
   \<and> (startsWith r ''ACTION:'' \<and> actionMatch r = Some (n, ps) \<and> \<not> isToolName n
     \<longrightarrow> mapResponseToLinearActivityContent r = Inl (JsError (''Invalid tool name: '' @ n)))
   \<and> mapResponseToLinearActivityContent ''ACTION: bogusTool(1,2)''
         = Inl (JsError ''Invalid tool name: bogusTool'')"
proof (intro conjI impI)
  assume a: "(\<forall>c \<in> set ws. isSpace c) \<and> name \<noteq> [] \<and> (\<forall>c \<in> set name. isWord c)
      \<and> params \<noteq> [] \<and> (\<forall>c \<in> set params. notRParen c) \<and> \<not> isToolName name"
  let ?r = "''ACTION:'' @ ws @ name @ ''('' @ params @ '')'' @ rest"
  have m: "actionMatch ?r = Some (name, params)"
    using a by (intro actionMatch_shape) blast+
  have "startsWith ?r ''ACTION:''" by (simp add: startsWith_def)
  from classify_action[OF this] m a
  show "mapResponseToLinearActivityContent ?r = Inl (JsError (''Invalid tool name: '' @ name))"
    by simp
next
  assume "startsWith r ''ACTION:'' \<and> actionMatch r = Some (n, ps) \<and> \<not> isToolName n"
  then show "mapResponseToLinearActivityContent r = Inl (JsError (''Invalid tool name: '' @ n))"
    by (simp add: classify_action)
next
  show "mapResponseToLinearActivityContent ''ACTION: bogusTool(1,2)''
         = Inl (JsError ''Invalid tool name: bogusTool'')"
    by (simp add: mapResponseToLinearActivityContent_def typeToKeyword_def startsWith_def
          matchActionAt_def isSpace_def isWord_def notRParen_def isToolName_def toolNames_def)
qed

theorem unregistered_tool_fails_witness:
  "list_all isSpace '' '' \<and> ''foo'' \<noteq> [] \<and> list_all isWord ''foo''
      \<and> ''x,y'' \<noteq> [] \<and> list_all notRParen ''x,y'' \<and> \<not> isToolName ''foo''
   \<and> mapResponseToLinearActivityContent ''ACTION: foo(x,y) now'' = Inl (JsError ''Invalid tool name: foo'')
   \<and> startsWith ''ACTION: bar(1)'' ''ACTION:'' \<and> actionMatch ''ACTION: bar(1)'' = Some (''bar'', ''1'')
   \<and> \<not> isToolName ''bar''
   \<and> mapResponseToLinearActivityContent ''ACTION: bar(1)'' = Inl (JsError ''Invalid tool name: bar'')"
  using unregistered_tool_fails [of "'' ''" "''foo''" "''x,y''" "'' now''" "''ACTION: bar(1)''" "''bar''" "''1''"]
  by (simp add: isSpace_def isWord_def notRParen_def isToolName_def toolNames_def startsWith_def
        matchActionAt_def)












section \<open>One iteration\<close>

lemma executeAction_events:
  "fst (executeAction w k a p) = [] \<and> (\<exists>e. snd (executeAction w k a p) = Inl e)
   \<or> (\<exists>args. fst (executeAction w k a p) = [ToolExec a args])"
  by (auto simp: executeAction_def callTool_def split: option.splits list.splits)

lemma executeAction_resolved:
  "executeAction w k a p = (evs, Inr r) \<Longrightarrow> \<exists>args. evs = [ToolExec a args]"
  using executeAction_events[of w k a p] by auto

lemma executeAction_cases:
  obtains (thrown) e where "executeAction w k a p = ([], Inl e)"
  | (tool) args res where "executeAction w k a p = ([ToolExec a args], res)"
  using executeAction_events[of w k a p] by (cases "executeAction w k a p") auto

lemma callLangGraphAgent_fst:
  "fst (callLangGraphAgent w k ms) = [Invoke (SystemMessage (prompt w) # ms)]"
  by (simp add: callLangGraphAgent_def Let_def)


lemmas step_defs = iteration_def tryBlock_def logEvents_def createAgentActivity_def push_def
  complete_def Let_def callLangGraphAgent_def

lemma iteration_taskComplete:
  "taskComplete (iteration w sid k st) = (taskComplete st \<or> outcome w k (messages st) \<noteq> Continues)"
  by (auto simp: step_defs outcome_def split: sum.splits prod.splits Content.splits)

lemma iteration_modelCalls:
  "modelCalls (trace (iteration w sid k st)) = Suc (modelCalls (trace st))"
proof -
  have ev: "\<And>a p evs r. executeAction w k a p = (evs, r) \<Longrightarrow> filter isInvoke evs = []"
    using executeAction_events by (metis filter.simps(1) filter.simps(2) fst_conv isInvoke.simps(3))
  show ?thesis
    by (auto simp: step_defs modelCalls_def ev split: sum.splits prod.splits Content.splits)
qed

lemma iteration_trace_head:
  "\<exists>more. trace (iteration w sid k st) = trace st @ Invoke (SystemMessage (prompt w) # messages st) # more"
  by (auto simp: step_defs split: sum.splits prod.splits Content.splits)

section \<open>The loop\<close>

lemma turnLoop_exit:
  "taskComplete st \<or> MAX_ITERATIONS \<le> n \<Longrightarrow> turnLoop w sid n st = (n, st)"
  by (subst turnLoop.simps) auto

lemma turnLoop_step:
  "\<not> taskComplete st \<Longrightarrow> n < MAX_ITERATIONS \<Longrightarrow>
     turnLoop w sid n st = turnLoop w sid (Suc n) (iteration w sid (Suc n) st)"
  by (subst turnLoop.simps) simp

lemma turnLoop_counter:
  "n \<le> MAX_ITERATIONS \<Longrightarrow>
     n \<le> fst (turnLoop w sid n st) \<and> fst (turnLoop w sid n st) \<le> MAX_ITERATIONS
     \<and> modelCalls (trace (snd (turnLoop w sid n st))) + n = modelCalls (trace st) + fst (turnLoop w sid n st)"
proof (induction w sid n st rule: turnLoop.induct)
  case (1 w sid n st)
  show ?case
  proof (cases "\<not> taskComplete st \<and> n < MAX_ITERATIONS")
    case True
    then have "Suc n \<le> MAX_ITERATIONS" by simp
    from "1.IH"[OF True this] True show ?thesis
      by (simp add: turnLoop_step iteration_modelCalls)
  next
    case False
    then have "turnLoop w sid n st = (n, st)" by (intro turnLoop_exit) auto
    then show ?thesis using "1.prems" by simp
  qed
qed

lemma turnLoop_trace_prefix:
  "\<exists>ext. trace (snd (turnLoop w sid n st)) = trace st @ ext"
proof (induction w sid n st rule: turnLoop.induct)
  case (1 w sid n st)
  show ?case
  proof (cases "\<not> taskComplete st \<and> n < MAX_ITERATIONS")
    case True
    from "1.IH"[OF True] obtain ext where
      "trace (snd (turnLoop w sid (Suc n) (iteration w sid (Suc n) st))) = trace (iteration w sid (Suc n) st) @ ext"
      by blast
    moreover obtain more where "trace (iteration w sid (Suc n) st) = trace st @ Invoke (SystemMessage (prompt w) # messages st) # more"
      using iteration_trace_head by blast
    ultimately show ?thesis using True by (simp add: turnLoop_step)
  next
    case False
    then have "turnLoop w sid n st = (n, st)" by (intro turnLoop_exit) auto
    then show ?thesis by simp
  qed
qed

lemma modelCalls_afterLoop:
  "modelCalls (trace (afterLoop sid (n, st))) = modelCalls (trace st)"
  by (simp add: afterLoop_def createAgentActivity_def logEvents_def modelCalls_def)

text \<open>
  C2. Whenever \<^verbatim>\<open>handleUserPrompt\<close> returns, the events of the run hold at most
  \<open>MAX_ITERATIONS\<close> calls of the model, whatever the model and the tools answer; it
  returns exactly when the reading of the history does; and \<open>MAX_ITERATIONS\<close> is 10.
\<close>

theorem model_calls_bounded:
  "(\<forall>st. handleUserPrompt w agentSessionId userPrompt = Some st
        \<longrightarrow> modelCalls (trace st) \<le> MAX_ITERATIONS)
   \<and> (handleUserPrompt w agentSessionId userPrompt = None
        \<longleftrightarrow> generateMessagesFromPreviousActivities w agentSessionId = None)
   \<and> MAX_ITERATIONS = 10"
proof (intro conjI allI impI)
  fix st assume h: "handleUserPrompt w agentSessionId userPrompt = Some st"
  then obtain history where
    st: "st = afterLoop agentSessionId (turnLoop w agentSessionId 0 (initialState userPrompt history))"
    by (auto simp: handleUserPrompt_def split: option.splits)
  let ?r = "turnLoop w agentSessionId 0 (initialState userPrompt history)"
  have c: "fst ?r \<le> MAX_ITERATIONS
     \<and> modelCalls (trace (snd ?r)) + 0 = modelCalls (trace (initialState userPrompt history)) + fst ?r"
    using turnLoop_counter[of 0 w agentSessionId "initialState userPrompt history"] by simp
  have "modelCalls (trace st) = modelCalls (trace (snd ?r))"
    unfolding st using modelCalls_afterLoop[of agentSessionId "fst ?r" "snd ?r"] by simp
  then show "modelCalls (trace st) \<le> MAX_ITERATIONS"
    using c by (simp add: initialState_def modelCalls_def)
next
  show "(handleUserPrompt w agentSessionId userPrompt = None)
        = (generateMessagesFromPreviousActivities w agentSessionId = None)"
    by (simp add: handleUserPrompt_def split: option.splits)
next
  show "MAX_ITERATIONS = 10" by (simp add: MAX_ITERATIONS_def)
qed

theorem model_calls_bounded_witness:
  "\<exists>st. handleUserPrompt (scripted thinkingReplies) ''s1'' ''Hi'' = Some st
        \<and> modelCalls (trace st) = 10 \<and> modelCalls (trace st) \<le> MAX_ITERATIONS"
proof -
  have "map_option (\<lambda>st. modelCalls (trace st))
          (handleUserPrompt (scripted thinkingReplies) ''s1'' ''Hi'') = Some 10"
    by code_simp
  then obtain st where "handleUserPrompt (scripted thinkingReplies) ''s1'' ''Hi'' = Some st"
    and "modelCalls (trace st) = 10"
    by auto
  then show ?thesis
    using model_calls_bounded [of "scripted thinkingReplies" "''s1''" "''Hi''"] by blast
qed

section \<open>Actions and failures within an iteration\<close>

lemma iteration_action:
  assumes call: "snd (callLangGraphAgent w k (messages st)) = Inr response"
    and cls: "mapResponseToLinearActivityContent response = Inr (ActionContent tool parameter res)"
    and exe: "executeAction w k tool parameter = (evs, Inr toolResult)"
  shows "iteration w sid k st =
      st\<lparr>messages := messages st @ [AIMessage response, HumanMessage (''Tool result: '' @ toolResult)],
         trace := trace st @ [Invoke (SystemMessage (prompt w) # messages st),
             CreateAgentActivity sid (ActionContent tool parameter None)] @ evs @
            [CreateAgentActivity sid (ActionContent tool parameter (Some toolResult)), Delay 1000]\<rparr>"
proof -
  obtain s where p: "parameter = Some s" "s \<noteq> []" and r: "res = None"
    using classified_action_parameter[OF cls] by blast
  have o: "orNull parameter = parameter" using p by (simp add: orNull_def parameterMissing_def)
  obtain evs0 where c: "callLangGraphAgent w k (messages st) = (evs0, Inr response)"
    using call by (cases "callLangGraphAgent w k (messages st)") auto
  have e0: "evs0 = [Invoke (SystemMessage (prompt w) # messages st)]"
    using c callLangGraphAgent_fst[of w k "messages st"] by simp
  show ?thesis
    by (simp add: iteration_def tryBlock_def c cls exe o r e0 logEvents_def createAgentActivity_def push_def)
qed

text \<open>
  C3. In an iteration in which the model call returns a reply, the reply is classified as
  an action and the execution of the tool resolves with a result, the events of the
  iteration are, in this order: the model call, the activity that announces the action
  (result absent), the call of the tool, the activity that reports it (same tool, same
  parameter, the result filled in) and the courtesy delay. So exactly two activities are
  written, one before and one after the tool call; the loop flag is left as it was.
\<close>

theorem action_two_activities:
  assumes "snd (callLangGraphAgent w k (messages st)) = Inr response"
    and "mapResponseToLinearActivityContent response = Inr (ActionContent tool parameter res)"
    and "executeAction w k tool parameter = (evs, Inr toolResult)"
  shows "\<exists>args. evs = [ToolExec tool args] \<and> res = None
     \<and> trace (iteration w agentSessionId k st) =
         trace st @ [Invoke (SystemMessage (prompt w) # messages st),
                     CreateAgentActivity agentSessionId (ActionContent tool parameter None),
                     ToolExec tool args,
                     CreateAgentActivity agentSessionId (ActionContent tool parameter (Some toolResult)),
                     Delay 1000]
     \<and> messages (iteration w agentSessionId k st) =
         messages st @ [AIMessage response, HumanMessage (''Tool result: '' @ toolResult)]
     \<and> taskComplete (iteration w agentSessionId k st) = taskComplete st"
proof -
  obtain args where a: "evs = [ToolExec tool args]"
    using executeAction_resolved[OF assms(3)] by blast
  have "res = None" using classified_action_parameter[OF assms(2)] by blast
  then show ?thesis
    using a by (simp add: iteration_action[OF assms])
qed

theorem action_two_activities_witness:
  "snd (callLangGraphAgent (scripted parisReplies) 2 (messages (initialState ''Weather in Paris?'' [])))
     = Inr (''ACTION: getCoordinates('' @ [CHR 0x22] @ ''Paris'' @ [CHR 0x22] @ '')'')
   \<and> mapResponseToLinearActivityContent (''ACTION: getCoordinates('' @ [CHR 0x22] @ ''Paris'' @ [CHR 0x22] @ '')'')
     = Inr (ActionContent ''getCoordinates'' (Some ([CHR 0x22] @ ''Paris'' @ [CHR 0x22])) None)
   \<and> executeAction (scripted parisReplies) 2 ''getCoordinates'' (Some ([CHR 0x22] @ ''Paris'' @ [CHR 0x22]))
     = ([ToolExec ''getCoordinates'' (CityName ''Paris'')], Inr ([CHR 0x22] @ ''48.85,2.35'' @ [CHR 0x22]))
   \<and> trace (iteration (scripted parisReplies) ''s1'' 2 (initialState ''Weather in Paris?'' []))
     = [Invoke [SystemMessage ''You are a weather bot.'', HumanMessage ''Weather in Paris?''],
        CreateAgentActivity ''s1''
          (ActionContent ''getCoordinates'' (Some ([CHR 0x22] @ ''Paris'' @ [CHR 0x22])) None),
        ToolExec ''getCoordinates'' (CityName ''Paris''),
        CreateAgentActivity ''s1''
          (ActionContent ''getCoordinates'' (Some ([CHR 0x22] @ ''Paris'' @ [CHR 0x22]))
             (Some ([CHR 0x22] @ ''48.85,2.35'' @ [CHR 0x22]))),
        Delay 1000]"
proof -
  let ?w = "scripted parisReplies"
  let ?st = "initialState ''Weather in Paris?'' []"
  let ?reply = "''ACTION: getCoordinates('' @ [CHR 0x22] @ ''Paris'' @ [CHR 0x22] @ '')''"
  let ?p = "Some ([CHR 0x22] @ ''Paris'' @ [CHR 0x22])"
  have h1: "snd (callLangGraphAgent ?w 2 (messages ?st)) = Inr ?reply"
    by code_simp
  have h2: "mapResponseToLinearActivityContent ?reply = Inr (ActionContent ''getCoordinates'' ?p None)"
    by code_simp
  have h3: "executeAction ?w 2 ''getCoordinates'' ?p
     = ([ToolExec ''getCoordinates'' (CityName ''Paris'')], Inr ([CHR 0x22] @ ''48.85,2.35'' @ [CHR 0x22]))"
    by code_simp
  have m: "messages ?st = [HumanMessage ''Weather in Paris?'']" "trace ?st = []"
    "prompt ?w = ''You are a weather bot.''"
    by (simp_all add: initialState_def scripted_def)
  from action_two_activities[OF h1 h2 h3, of "''s1''"]
  have "trace (iteration ?w ''s1'' 2 ?st)
     = [Invoke [SystemMessage ''You are a weather bot.'', HumanMessage ''Weather in Paris?''],
        CreateAgentActivity ''s1'' (ActionContent ''getCoordinates'' ?p None),
        ToolExec ''getCoordinates'' (CityName ''Paris''),
        CreateAgentActivity ''s1''
          (ActionContent ''getCoordinates'' ?p (Some ([CHR 0x22] @ ''48.85,2.35'' @ [CHR 0x22]))),
        Delay 1000]"
    unfolding m by auto
  then show ?thesis using h1 h2 h3 by blast
qed

lemma executeAction_not_missing:
  assumes "p = Some s" "s \<noteq> []"
  shows "executeAction w k tool p \<noteq> ([], Inl (JsError ''Parameter is required for action execution''))"
  using assms
  by (auto simp: executeAction_def callTool_def parameterMissing_def split: list.splits)

text \<open>
  C10. Every action that the classifier returns carries a parameter that is neither
  \<^verbatim>\<open>null\<close> nor empty: the test \<^verbatim>\<open>!parameter\<close> of \<^verbatim>\<open>executeAction\<close> is false for it, and
  with any collaborators \<^verbatim>\<open>executeAction\<close> never ends, before any tool call, with the error
  \<^verbatim>\<open>Parameter is required for action execution\<close>.
\<close>

theorem classified_action_has_parameter:
  assumes "mapResponseToLinearActivityContent r = Inr (ActionContent tool p res)"
  shows "(\<exists>s. p = Some s \<and> s \<noteq> []) \<and> \<not> parameterMissing p
     \<and> (\<forall>w k. executeAction w k tool p
            \<noteq> ([], Inl (JsError ''Parameter is required for action execution'')))"
proof -
  obtain s where p: "p = Some s" "s \<noteq> []"
    using classified_action_parameter[OF assms] by blast
  then show ?thesis
    using executeAction_not_missing[OF p] by (simp add: parameterMissing_def)
qed

theorem classified_action_has_parameter_witness:
  "mapResponseToLinearActivityContent ''ACTION: getWeather(40.7,-74.0)''
      = Inr (ActionContent ''getWeather'' (Some ''40.7,-74.0'') None)
   \<and> \<not> parameterMissing (Some ''40.7,-74.0'')
   \<and> executeAction (scripted parisReplies) 1 ''getWeather'' (Some ''40.7,-74.0'')
       \<noteq> ([], Inl (JsError ''Parameter is required for action execution''))"
proof -
  have c: "mapResponseToLinearActivityContent ''ACTION: getWeather(40.7,-74.0)''
      = Inr (ActionContent ''getWeather'' (Some ''40.7,-74.0'') None)"
    by code_simp
  show ?thesis
    using classified_action_has_parameter[OF c] c by blast
qed

lemma iteration_failed:
  assumes "outcome w k (messages st) = Failed e"
  shows "\<exists>pre. iteration w sid k st =
           st\<lparr>taskComplete := True,
              trace := trace st @ Invoke (SystemMessage (prompt w) # messages st) # pre
                 @ [CreateAgentActivity sid (TextContent Error (''Agent error: '' @ errorText w e))]\<rparr>
         \<and> (pre = [] \<or> (\<exists>tool p. pre = [CreateAgentActivity sid (ActionContent tool p None)])
              \<or> (\<exists>tool p args. pre = [CreateAgentActivity sid (ActionContent tool p None), ToolExec tool args]))"
proof (cases "snd (callLangGraphAgent w k (messages st))")
  case (Inl e')
  then have "e' = e" using assms by (simp add: outcome_def)
  obtain evs0 where c: "callLangGraphAgent w k (messages st) = (evs0, Inl e)"
    using Inl \<open>e' = e\<close> by (cases "callLangGraphAgent w k (messages st)") auto
  have e0: "evs0 = [Invoke (SystemMessage (prompt w) # messages st)]"
    using c callLangGraphAgent_fst[of w k "messages st"] by simp
  have "iteration w sid k st =
           st\<lparr>taskComplete := True,
              trace := trace st @ Invoke (SystemMessage (prompt w) # messages st) # []
                 @ [CreateAgentActivity sid (TextContent Error (''Agent error: '' @ errorText w e))]\<rparr>"
    by (simp add: iteration_def tryBlock_def c e0 logEvents_def createAgentActivity_def complete_def)
  then show ?thesis by blast
next
  case (Inr response)
  obtain evs0 where c: "callLangGraphAgent w k (messages st) = (evs0, Inr response)"
    using Inr by (cases "callLangGraphAgent w k (messages st)") auto
  have e0: "evs0 = [Invoke (SystemMessage (prompt w) # messages st)]"
    using c callLangGraphAgent_fst[of w k "messages st"] by simp
  show ?thesis
  proof (cases "mapResponseToLinearActivityContent response")
    case (Inl e')
    then have "e' = e" using assms Inr by (simp add: outcome_def)
    with Inl have "iteration w sid k st =
           st\<lparr>taskComplete := True,
              trace := trace st @ Invoke (SystemMessage (prompt w) # messages st) # []
                 @ [CreateAgentActivity sid (TextContent Error (''Agent error: '' @ errorText w e))]\<rparr>"
      by (simp add: iteration_def tryBlock_def c e0 logEvents_def createAgentActivity_def complete_def)
    then show ?thesis by blast
  next
    case cls: (Inr content)
    show ?thesis
    proof (cases content)
      case (TextContent ty b)
      then show ?thesis using assms Inr cls by (simp add: outcome_def split: if_splits)
    next
      case (ActionContent tool p res)
      have res: "res = None" using classified_action_parameter cls ActionContent by blast
      from assms Inr cls ActionContent have ex: "snd (executeAction w k tool p) = Inl e"
        by (simp add: outcome_def split: sum.splits)
      consider (thrown) e' where "executeAction w k tool p = ([], Inl e')"
        | (tool) args r where "executeAction w k tool p = ([ToolExec tool args], r)"
        by (rule executeAction_cases)
      then show ?thesis
      proof cases
        case thrown
        with ex have x: "executeAction w k tool p = ([], Inl e)" by simp
        have "iteration w sid k st =
           st\<lparr>taskComplete := True,
              trace := trace st @ Invoke (SystemMessage (prompt w) # messages st)
                 # [CreateAgentActivity sid (ActionContent tool p None)]
                 @ [CreateAgentActivity sid (TextContent Error (''Agent error: '' @ errorText w e))]\<rparr>"
          by (simp add: iteration_def tryBlock_def c e0 cls ActionContent res x logEvents_def
                createAgentActivity_def complete_def)
        then show ?thesis by blast
      next
        case tool
        with ex have x: "executeAction w k tool p = ([ToolExec tool args], Inl e)" by simp
        have "iteration w sid k st =
           st\<lparr>taskComplete := True,
              trace := trace st @ Invoke (SystemMessage (prompt w) # messages st)
                 # [CreateAgentActivity sid (ActionContent tool p None), ToolExec tool args]
                 @ [CreateAgentActivity sid (TextContent Error (''Agent error: '' @ errorText w e))]\<rparr>"
          by (simp add: iteration_def tryBlock_def c e0 cls ActionContent res x logEvents_def
                createAgentActivity_def complete_def)
        then show ?thesis by blast
      qed
    qed
  qed
qed

lemma getWeather_unparsable:
  "executeAction w k ''getWeather'' (Some ''abc,def'')
     = ([], Inl (JsError ''Invalid parameter for getWeather action''))"
  by (simp add: executeAction_def parameterMissing_def parseFloat_def trim_def trimStart_def
        isSpace_def unsignedPrefix_def isDigit_def isNaN_def)

lemma outcome_Failed_iff:
  "outcome w k ms = Failed e \<longleftrightarrow>
     (snd (callLangGraphAgent w k ms) = Inl e
      \<or> (\<exists>response. snd (callLangGraphAgent w k ms) = Inr response
            \<and> (mapResponseToLinearActivityContent response = Inl e
                \<or> (\<exists>tool p res. mapResponseToLinearActivityContent response
                                    = Inr (ActionContent tool p res)
                      \<and> snd (executeAction w k tool p) = Inl e))))"
  by (auto simp: outcome_def split: sum.splits Content.splits)

lemma afterLoop_complete: "taskComplete st \<Longrightarrow> afterLoop sid (n, st) = st"
  by (simp add: afterLoop_def)

text \<open>
  C4. When the loop is about to run an iteration and, in it, the model call, the
  classification or the execution of the tool throws, the iteration publishes exactly one
  activity of type error, whose body is \<^verbatim>\<open>Agent error:\<close> followed by the text of the
  value thrown, after the model call and, where the failure came from the tool, after the
  announcement of the action (and the tool call, if the tool itself threw). The messages
  are unchanged, the loop ends right there with its counter one higher, and nothing is
  published after it. For \<^verbatim>\<open>getWeather\<close> the parameter \<^verbatim>\<open>abc,def\<close> is such a failure:
  \<^verbatim>\<open>executeAction\<close> throws before calling the tool.
\<close>

theorem failure_ends_loop:
  assumes "\<not> taskComplete st" and "n < MAX_ITERATIONS"
    and "snd (callLangGraphAgent w (Suc n) (messages st)) = Inl e
      \<or> (\<exists>response. snd (callLangGraphAgent w (Suc n) (messages st)) = Inr response
            \<and> (mapResponseToLinearActivityContent response = Inl e
                \<or> (\<exists>tool p res. mapResponseToLinearActivityContent response
                                    = Inr (ActionContent tool p res)
                      \<and> snd (executeAction w (Suc n) tool p) = Inl e)))"
  shows "\<exists>pre st'.
       st' = st\<lparr>taskComplete := True,
                trace := trace st @ Invoke (SystemMessage (prompt w) # messages st) # pre
                   @ [CreateAgentActivity agentSessionId
                        (TextContent Error (''Agent error: '' @ errorText w e))]\<rparr>
     \<and> (pre = []
          \<or> (\<exists>tool p. pre = [CreateAgentActivity agentSessionId (ActionContent tool p None)])
          \<or> (\<exists>tool p args. pre = [CreateAgentActivity agentSessionId (ActionContent tool p None),
                                    ToolExec tool args]))
     \<and> iteration w agentSessionId (Suc n) st = st'
     \<and> turnLoop w agentSessionId n st = (Suc n, st')
     \<and> afterLoop agentSessionId (turnLoop w agentSessionId n st) = st'
     \<and> executeAction w (Suc n) ''getWeather'' (Some ''abc,def'')
          = ([], Inl (JsError ''Invalid parameter for getWeather action''))"
proof -
  have "outcome w (Suc n) (messages st) = Failed e"
    using assms(3) by (simp add: outcome_Failed_iff)
  from iteration_failed[OF this, of agentSessionId] obtain pre where
    it: "iteration w agentSessionId (Suc n) st =
           st\<lparr>taskComplete := True,
              trace := trace st @ Invoke (SystemMessage (prompt w) # messages st) # pre
                 @ [CreateAgentActivity agentSessionId (TextContent Error (''Agent error: '' @ errorText w e))]\<rparr>"
    and pre: "pre = [] \<or> (\<exists>tool p. pre = [CreateAgentActivity agentSessionId (ActionContent tool p None)])
              \<or> (\<exists>tool p args. pre = [CreateAgentActivity agentSessionId (ActionContent tool p None), ToolExec tool args])"
    by blast
  let ?st' = "iteration w agentSessionId (Suc n) st"
  have tc: "taskComplete ?st'" by (simp add: it)
  have "turnLoop w agentSessionId n st = turnLoop w agentSessionId (Suc n) ?st'"
    using assms(1,2) by (rule turnLoop_step)
  also have "\<dots> = (Suc n, ?st')" using tc by (simp add: turnLoop_exit)
  finally have tl: "turnLoop w agentSessionId n st = (Suc n, ?st')" .
  have al: "afterLoop agentSessionId (turnLoop w agentSessionId n st) = ?st'"
    unfolding tl using tc by (rule afterLoop_complete)
  show ?thesis
    using it pre tl al getWeather_unparsable by metis
qed

theorem failure_ends_loop_witness:
  "\<not> taskComplete (initialState ''Weather?'' []) \<and> 0 < MAX_ITERATIONS
   \<and> snd (callLangGraphAgent (scripted badWeatherReplies) (Suc 0) (messages (initialState ''Weather?'' [])))
       = Inr ''ACTION: getWeather(abc,def)''
   \<and> mapResponseToLinearActivityContent ''ACTION: getWeather(abc,def)''
       = Inr (ActionContent ''getWeather'' (Some ''abc,def'') None)
   \<and> snd (executeAction (scripted badWeatherReplies) (Suc 0) ''getWeather'' (Some ''abc,def''))
       = Inl (JsError ''Invalid parameter for getWeather action'')
   \<and> turnLoop (scripted badWeatherReplies) ''s1'' 0 (initialState ''Weather?'' [])
       = (Suc 0,
          \<lparr>messages = [HumanMessage ''Weather?''], taskComplete = True,
           trace = [Invoke [SystemMessage ''You are a weather bot.'', HumanMessage ''Weather?''],
                    CreateAgentActivity ''s1'' (ActionContent ''getWeather'' (Some ''abc,def'') None),
                    CreateAgentActivity ''s1''
                      (TextContent Error ''Agent error: Invalid parameter for getWeather action'')]\<rparr>)
   \<and> afterLoop ''s1'' (turnLoop (scripted badWeatherReplies) ''s1'' 0 (initialState ''Weather?'' []))
       = snd (turnLoop (scripted badWeatherReplies) ''s1'' 0 (initialState ''Weather?'' []))"
proof -
  let ?w = "scripted badWeatherReplies"
  let ?st = "initialState ''Weather?'' []"
  have a1: "\<not> taskComplete ?st" by (simp add: initialState_def)
  have a2: "0 < MAX_ITERATIONS" by (simp add: MAX_ITERATIONS_def)
  have h1: "snd (callLangGraphAgent ?w (Suc 0) (messages ?st)) = Inr ''ACTION: getWeather(abc,def)''"
    by code_simp
  have h2: "mapResponseToLinearActivityContent ''ACTION: getWeather(abc,def)''
       = Inr (ActionContent ''getWeather'' (Some ''abc,def'') None)"
    by code_simp
  have h3: "snd (executeAction ?w (Suc 0) ''getWeather'' (Some ''abc,def''))
       = Inl (JsError ''Invalid parameter for getWeather action'')"
    by code_simp
  have run: "turnLoop ?w ''s1'' 0 ?st
       = (Suc 0,
          \<lparr>messages = [HumanMessage ''Weather?''], taskComplete = True,
           trace = [Invoke [SystemMessage ''You are a weather bot.'', HumanMessage ''Weather?''],
                    CreateAgentActivity ''s1'' (ActionContent ''getWeather'' (Some ''abc,def'') None),
                    CreateAgentActivity ''s1''
                      (TextContent Error ''Agent error: Invalid parameter for getWeather action'')]\<rparr>)"
    by code_simp
  have "snd (callLangGraphAgent ?w (Suc 0) (messages ?st)) = Inl (JsError ''Invalid parameter for getWeather action'')
      \<or> (\<exists>response. snd (callLangGraphAgent ?w (Suc 0) (messages ?st)) = Inr response
            \<and> (mapResponseToLinearActivityContent response = Inl (JsError ''Invalid parameter for getWeather action'')
                \<or> (\<exists>tool p res. mapResponseToLinearActivityContent response
                                    = Inr (ActionContent tool p res)
                      \<and> snd (executeAction ?w (Suc 0) tool p) = Inl (JsError ''Invalid parameter for getWeather action''))))"
    using h1 h2 h3 by blast
  from failure_ends_loop[OF a1 a2 this, of "''s1''"]
  have "afterLoop ''s1'' (turnLoop ?w ''s1'' 0 ?st) = snd (turnLoop ?w ''s1'' 0 ?st)"
    by force
  then show ?thesis using a1 a2 h1 h2 h3 run by blast
qed

section \<open>The exit of the loop\<close>

lemma stateAfter_shift:
  "stateAfter w sid (Suc n) (iteration w sid (Suc n) st) j = stateAfter w sid n st (Suc j)"
  by (induction j) simp_all

lemma all_nat_split: "(\<forall>j::nat. P j) \<longleftrightarrow> P 0 \<and> (\<forall>j. P (Suc j))"
  by (metis nat.exhaust)

lemma turnLoop_exit_state:
  "n \<le> MAX_ITERATIONS \<Longrightarrow> \<not> taskComplete st \<Longrightarrow>
     (\<not> taskComplete (snd (turnLoop w sid n st)) \<longleftrightarrow>
        (\<forall>j. n + j < MAX_ITERATIONS \<longrightarrow>
              outcome w (n + Suc j) (messages (stateAfter w sid n st j)) = Continues))
     \<and> (\<not> taskComplete (snd (turnLoop w sid n st)) \<longrightarrow> fst (turnLoop w sid n st) = MAX_ITERATIONS)"
proof (induction w sid n st rule: turnLoop.induct)
  case (1 w sid n st)
  let ?P = "\<lambda>j. n + j < MAX_ITERATIONS \<longrightarrow>
              outcome w (n + Suc j) (messages (stateAfter w sid n st j)) = Continues"
  show ?case
  proof (cases "n < MAX_ITERATIONS")
    case False
    then have "turnLoop w sid n st = (n, st)" by (intro turnLoop_exit) auto
    then show ?thesis using False "1.prems" by simp
  next
    case True
    let ?st1 = "iteration w sid (Suc n) st"
    have step: "turnLoop w sid n st = turnLoop w sid (Suc n) ?st1"
      using "1.prems"(2) True by (rule turnLoop_step)
    have tc1: "taskComplete ?st1 = (outcome w (Suc n) (messages st) \<noteq> Continues)"
      using "1.prems"(2) by (simp add: iteration_taskComplete)
    show ?thesis
    proof (cases "taskComplete ?st1")
      case stop: True
      then have "turnLoop w sid n st = (Suc n, ?st1)" by (simp add: step turnLoop_exit)
      moreover have "\<not> ?P 0" using stop tc1 True by simp
      then have "\<not> (\<forall>j. ?P j)" by blast
      ultimately show ?thesis using stop by simp
    next
      case go: False
      have ih: "(\<not> taskComplete (snd (turnLoop w sid (Suc n) ?st1)) \<longleftrightarrow>
          (\<forall>j. Suc n + j < MAX_ITERATIONS \<longrightarrow>
              outcome w (Suc n + Suc j) (messages (stateAfter w sid (Suc n) ?st1 j)) = Continues))
        \<and> (\<not> taskComplete (snd (turnLoop w sid (Suc n) ?st1))
              \<longrightarrow> fst (turnLoop w sid (Suc n) ?st1) = MAX_ITERATIONS)"
        using "1.IH" "1.prems"(2) True go by simp
      have p0: "?P 0" using go tc1 by simp
      have "(\<forall>j. ?P j) \<longleftrightarrow> (\<forall>j. ?P (Suc j))"
        using p0 all_nat_split[of ?P] by blast
      also have "\<dots> \<longleftrightarrow> (\<forall>j. Suc n + j < MAX_ITERATIONS \<longrightarrow>
              outcome w (Suc n + Suc j) (messages (stateAfter w sid (Suc n) ?st1 j)) = Continues)"
        by (simp add: stateAfter_shift)
      finally show ?thesis using ih by (simp add: step)
    qed
  qed
qed

text \<open>
  C6. Let the history be read. If every one of the \<open>MAX_ITERATIONS\<close> iterations goes on
  (none throws, none yields a terminal variant), the loop leaves with its counter at
  \<open>MAX_ITERATIONS\<close> and the task not complete, and \<^verbatim>\<open>handleUserPrompt\<close> publishes after
  it exactly one activity of type error, whose body is the sentence that the agent has
  reached the maximum number of iterations and will now stop.
  Otherwise the loop leaves with the task complete and nothing is published after it.
\<close>

theorem budget_error_iff:
  assumes "generateMessagesFromPreviousActivities w agentSessionId = Some history"
  shows "\<exists>n st. turnLoop w agentSessionId 0 (initialState userPrompt history) = (n, st)
     \<and> (if \<forall>j<MAX_ITERATIONS.
              outcome w (Suc j)
                (messages (stateAfter w agentSessionId 0 (initialState userPrompt history) j))
              = Continues
         then n = MAX_ITERATIONS \<and> \<not> taskComplete st
              \<and> handleUserPrompt w agentSessionId userPrompt
                  = Some (st\<lparr>trace := trace st @
                       [CreateAgentActivity agentSessionId
                          (TextContent Error
                             ''The agent has reached the maximum number of iterations and will now stop.'')]\<rparr>)
         else taskComplete st \<and> handleUserPrompt w agentSessionId userPrompt = Some st)"
proof -
  let ?st0 = "initialState userPrompt history"
  obtain n st where r: "turnLoop w agentSessionId 0 ?st0 = (n, st)"
    by (cases "turnLoop w agentSessionId 0 ?st0")
  have h: "handleUserPrompt w agentSessionId userPrompt = Some (afterLoop agentSessionId (n, st))"
    using assms r by (simp add: handleUserPrompt_def)
  have "\<not> taskComplete ?st0" by (simp add: initialState_def)
  from turnLoop_exit_state[OF _ this, of 0 w agentSessionId] r
  have ex: "\<not> taskComplete st \<longleftrightarrow>
        (\<forall>j<MAX_ITERATIONS. outcome w (Suc j) (messages (stateAfter w agentSessionId 0 ?st0 j)) = Continues)"
    and mx: "\<not> taskComplete st \<longrightarrow> n = MAX_ITERATIONS"
    by simp_all
  show ?thesis
  proof (cases "taskComplete st")
    case True
    then show ?thesis using r h ex by (simp add: afterLoop_def)
  next
    case False
    then have "n = MAX_ITERATIONS" using mx by simp
    then show ?thesis using r h ex False
      by (simp add: afterLoop_def createAgentActivity_def logEvents_def maxIterationsMessage_def)
  qed
qed

theorem budget_error_iff_witness:
  "generateMessagesFromPreviousActivities (scripted thinkingReplies) ''s1'' = Some []
   \<and> list_all (\<lambda>j. outcome (scripted thinkingReplies) (Suc j)
                  (messages (stateAfter (scripted thinkingReplies) ''s1'' 0 (initialState ''Hi'' []) j))
                = Continues) [0..<MAX_ITERATIONS]
   \<and> (\<exists>st. handleUserPrompt (scripted thinkingReplies) ''s1'' ''Hi'' = Some st
          \<and> \<not> taskComplete st
          \<and> last (trace st) = CreateAgentActivity ''s1''
               (TextContent Error
                  ''The agent has reached the maximum number of iterations and will now stop.'')
          \<and> length (filter isErrorActivity (trace st)) = 1)
   \<and> generateMessagesFromPreviousActivities (scripted parisReplies) ''s1'' = Some []
   \<and> \<not> list_all (\<lambda>j. outcome (scripted parisReplies) (Suc j)
                  (messages (stateAfter (scripted parisReplies) ''s1'' 0 (initialState ''Hi'' []) j))
                = Continues) [0..<MAX_ITERATIONS]
   \<and> (\<exists>st. handleUserPrompt (scripted parisReplies) ''s1'' ''Hi'' = Some st
          \<and> taskComplete st \<and> filter isErrorActivity (trace st) = [])"
proof -
  let ?t = "scripted thinkingReplies"
  let ?p = "scripted parisReplies"
  have gt: "generateMessagesFromPreviousActivities ?t ''s1'' = Some []" by code_simp
  have gp: "generateMessagesFromPreviousActivities ?p ''s1'' = Some []" by code_simp
  have lt: "list_all (\<lambda>j. outcome ?t (Suc j)
                  (messages (stateAfter ?t ''s1'' 0 (initialState ''Hi'' []) j)) = Continues)
              [0..<MAX_ITERATIONS]"
    by code_simp
  have lp: "\<not> list_all (\<lambda>j. outcome ?p (Suc j)
                  (messages (stateAfter ?p ''s1'' 0 (initialState ''Hi'' []) j)) = Continues)
              [0..<MAX_ITERATIONS]"
    by code_simp
  have ct: "map_option (\<lambda>st. length (filter isErrorActivity (trace st)))
              (handleUserPrompt ?t ''s1'' ''Hi'') = Some 1"
    by code_simp
  have cp: "map_option (\<lambda>st. filter isErrorActivity (trace st))
              (handleUserPrompt ?p ''s1'' ''Hi'') = Some []"
    by code_simp
  have at: "\<forall>j<MAX_ITERATIONS. outcome ?t (Suc j)
                  (messages (stateAfter ?t ''s1'' 0 (initialState ''Hi'' []) j)) = Continues"
    using lt by (auto simp: list_all_iff)
  have ap: "\<not> (\<forall>j<MAX_ITERATIONS. outcome ?p (Suc j)
                  (messages (stateAfter ?p ''s1'' 0 (initialState ''Hi'' []) j)) = Continues)"
    using lp by (auto simp: list_all_iff)
  from budget_error_iff[OF gt, of "''Hi''"] at obtain n st where
    t: "\<not> taskComplete st"
      "handleUserPrompt ?t ''s1'' ''Hi''
         = Some (st\<lparr>trace := trace st @ [CreateAgentActivity ''s1''
               (TextContent Error
                  ''The agent has reached the maximum number of iterations and will now stop.'')]\<rparr>)"
    by auto
  from budget_error_iff[OF gp, of "''Hi''"] ap obtain n' st' where
    p: "taskComplete st'" "handleUserPrompt ?p ''s1'' ''Hi'' = Some st'"
    by auto
  have "\<exists>st. handleUserPrompt ?t ''s1'' ''Hi'' = Some st
          \<and> \<not> taskComplete st
          \<and> last (trace st) = CreateAgentActivity ''s1''
               (TextContent Error
                  ''The agent has reached the maximum number of iterations and will now stop.'')
          \<and> length (filter isErrorActivity (trace st)) = 1"
    using t ct by auto
  moreover have "\<exists>st. handleUserPrompt ?p ''s1'' ''Hi'' = Some st
          \<and> taskComplete st \<and> filter isErrorActivity (trace st) = []"
    using p cp by auto
  ultimately show ?thesis using gt gp lt lp by blast
qed

lemma afterLoop_trace_prefix: "\<exists>ext. trace (afterLoop sid (n, st)) = trace st @ ext"
  by (simp add: afterLoop_def createAgentActivity_def logEvents_def)

text \<open>
  C9. When the history is read, the message list of \<^verbatim>\<open>handleUserPrompt\<close> starts as the
  new human message with the user prompt followed by the reconstructed history, and the
  first event of the run is the model call with the system prompt and that list.
\<close>

theorem first_call_messages:
  assumes "generateMessagesFromPreviousActivities w agentSessionId = Some history"
  shows "\<exists>st rest. handleUserPrompt w agentSessionId userPrompt = Some st
     \<and> messages (initialState userPrompt history) = HumanMessage userPrompt # history
     \<and> trace st = Invoke (SystemMessage (prompt w) # HumanMessage userPrompt # history) # rest"
proof -
  let ?st0 = "initialState userPrompt history"
  let ?st1 = "iteration w agentSessionId (Suc 0) ?st0"
  have m: "messages ?st0 = HumanMessage userPrompt # history"
    by (simp add: initialState_def)
  have "turnLoop w agentSessionId 0 ?st0 = turnLoop w agentSessionId (Suc 0) ?st1"
    by (rule turnLoop_step) (simp_all add: initialState_def MAX_ITERATIONS_def)
  moreover obtain more where "trace ?st1 = trace ?st0 @ Invoke (SystemMessage (prompt w) # messages ?st0) # more"
    using iteration_trace_head by blast
  moreover obtain ext where "trace (snd (turnLoop w agentSessionId (Suc 0) ?st1)) = trace ?st1 @ ext"
    using turnLoop_trace_prefix by blast
  moreover obtain ext' where
    "trace (afterLoop agentSessionId (turnLoop w agentSessionId 0 ?st0))
       = trace (snd (turnLoop w agentSessionId 0 ?st0)) @ ext'"
    using afterLoop_trace_prefix[of agentSessionId "fst (turnLoop w agentSessionId 0 ?st0)"
            "snd (turnLoop w agentSessionId 0 ?st0)"] by auto
  moreover have "trace ?st0 = []" by (simp add: initialState_def)
  ultimately have "trace (afterLoop agentSessionId (turnLoop w agentSessionId 0 ?st0))
      = Invoke (SystemMessage (prompt w) # HumanMessage userPrompt # history) # more @ ext @ ext'"
    using m by simp
  then show ?thesis using assms m by (simp add: handleUserPrompt_def)
qed

theorem first_call_messages_witness:
  "generateMessagesFromPreviousActivities pagedWorld ''s1''
     = Some [HumanMessage ''Weather?'', AIMessage ''Sunny.'']
   \<and> (\<exists>st rest. handleUserPrompt pagedWorld ''s1'' ''And in Paris?'' = Some st
         \<and> trace st = Invoke [SystemMessage ''You are a weather bot.'', HumanMessage ''And in Paris?'',
                               HumanMessage ''Weather?'', AIMessage ''Sunny.''] # rest)"
proof -
  have g: "generateMessagesFromPreviousActivities pagedWorld ''s1''
     = Some [HumanMessage ''Weather?'', AIMessage ''Sunny.'']"
    by code_simp
  have "prompt pagedWorld = ''You are a weather bot.''"
    by (simp add: pagedWorld_def scripted_def)
  then show ?thesis
    using first_call_messages[OF g, of "''And in Paris?''"] g by auto
qed

section \<open>History reconstruction\<close>

lemma serves_nodes: "serves list c (p # ps) \<Longrightarrow> nodes (list c) = p"
  by (cases ps) simp_all

lemma fetchPages_serves:
  "serves list c (p # ps) \<Longrightarrow>
     fetchPages list (list c) (hasNextPage (list c)) acc = Some (acc @ concat ps)"
proof (induction ps arbitrary: c p acc)
  case Nil
  then show ?case by (subst fetchPages.simps) simp
next
  case (Cons q qs)
  let ?c' = "endCursor (list c)"
  from Cons.prems have more: "hasNextPage (list c)" "truthy ?c'"
    and rest: "serves list ?c' (q # qs)"
    by simp_all
  have "fetchPages list (list c) (hasNextPage (list c)) acc
      = fetchPages list (list ?c') (hasNextPage (list ?c')) (acc @ nodes (list ?c'))"
    using more by (subst fetchPages.simps) simp
  also have "\<dots> = Some ((acc @ nodes (list ?c')) @ concat qs)"
    using rest by (rule Cons.IH)
  also have "nodes (list ?c') = q" using rest by (rule serves_nodes)
  finally show ?case by simp
qed

lemma generateMessages_serves:
  assumes "serves (activities w sid) None pages"
  shows "generateMessagesFromPreviousActivities w sid
     = Some (map toMessage (rev (filter keptForHistory (concat pages))))"
proof -
  obtain p ps where pages: "pages = p # ps" using assms by (cases pages) auto
  have "nodes (activities w sid None) = p" using assms pages serves_nodes by blast
  then show ?thesis
    using fetchPages_serves[of "activities w sid" None p ps "nodes (activities w sid None)"] assms pages
    by (simp add: generateMessagesFromPreviousActivities_def Let_def)
qed

lemma kept_chronological:
  "sorted (rev (map createdAt xs)) \<Longrightarrow> sorted (map createdAt (rev (filter P xs)))"
proof -
  assume "sorted (rev (map createdAt xs))"
  then have "sorted (map createdAt (rev xs))" by (simp add: rev_map)
  then have "sorted (map createdAt (filter P (rev xs)))" by (rule sorted_filter)
  then show ?thesis by (simp add: rev_filter)
qed

text \<open>
  C5. When the listing serves the activities of a session as the pages \<open>pages\<close>, history
  reconstruction returns, for the activities of type prompt or response of all pages, in
  the reverse of the order of arrival, one message each: a human message for a prompt, an
  assistant message for a response. There are as many messages as there are such
  activities on the pages together, however the activities are cut into pages; when the
  activities arrive newest first, the messages are in the order of creation; a session
  without activities gives the empty list.
\<close>

theorem history_reconstruction:
  assumes "serves (activities w agentSessionId) None pages"
  shows "\<exists>kept. kept = rev (filter keptForHistory (concat pages))
     \<and> generateMessagesFromPreviousActivities w agentSessionId = Some (map toMessage kept)
     \<and> length (map toMessage kept) = (\<Sum>p\<leftarrow>pages. length (filter keptForHistory p))
     \<and> (sorted (rev (map createdAt (concat pages))) \<longrightarrow> sorted (map createdAt kept))
     \<and> (\<forall>a \<in> set kept.
            (contentType (content a) = Prompt \<and> toMessage a = HumanMessage (bodyOf (content a)))
          \<or> (contentType (content a) = Response \<and> toMessage a = AIMessage (bodyOf (content a))))
     \<and> (concat pages = [] \<longrightarrow> generateMessagesFromPreviousActivities w agentSessionId = Some [])"
proof -
  let ?kept = "rev (filter keptForHistory (concat pages))"
  have g: "generateMessagesFromPreviousActivities w agentSessionId = Some (map toMessage ?kept)"
    using assms by (rule generateMessages_serves)
  have "length (filter keptForHistory (concat pages)) = (\<Sum>p\<leftarrow>pages. length (filter keptForHistory p))"
    by (induction pages) simp_all
  then have l: "length (map toMessage ?kept) = (\<Sum>p\<leftarrow>pages. length (filter keptForHistory p))"
    by simp
  have c: "sorted (rev (map createdAt (concat pages))) \<longrightarrow> sorted (map createdAt ?kept)"
    using kept_chronological by blast
  have m: "\<forall>a \<in> set ?kept.
            (contentType (content a) = Prompt \<and> toMessage a = HumanMessage (bodyOf (content a)))
          \<or> (contentType (content a) = Response \<and> toMessage a = AIMessage (bodyOf (content a)))"
    by (auto simp: keptForHistory_def toMessage_def)
  have e: "concat pages = [] \<longrightarrow> generateMessagesFromPreviousActivities w agentSessionId = Some []"
  proof
    assume "concat pages = []"
    then have "?kept = []" by (simp only: filter.simps rev.simps)
    then show "generateMessagesFromPreviousActivities w agentSessionId = Some []"
      using g by simp
  qed
  show ?thesis using g l c m e by blast
qed

theorem history_reconstruction_witness:
  "serves (activities pagedWorld ''s1'') None
     [[act Response ''Sunny.'' 5, act Thought ''Look it up'' 4],
      [\<lparr>content = ActionContent ''getTime'' (Some ''1,2'') None, createdAt = 3\<rparr>],
      [act Prompt ''Weather?'' 1]]
   \<and> generateMessagesFromPreviousActivities pagedWorld ''s1''
       = Some [HumanMessage ''Weather?'', AIMessage ''Sunny.'']
   \<and> serves (activities (scripted parisReplies) ''s1'') None [[]]
   \<and> generateMessagesFromPreviousActivities (scripted parisReplies) ''s1'' = Some []"
proof -
  let ?pages = "[[act Response ''Sunny.'' 5, act Thought ''Look it up'' 4],
      [\<lparr>content = ActionContent ''getTime'' (Some ''1,2'') None, createdAt = 3\<rparr>],
      [act Prompt ''Weather?'' 1]]"
  have s: "serves (activities pagedWorld ''s1'') None ?pages"
    by (simp add: pagedWorld_def scripted_def pagedListing_def truthy_def)
  have q: "serves (activities (scripted parisReplies) ''s1'') None [[]]"
    by (simp add: scripted_def quiet_def)
  have v: "map toMessage (rev (filter keptForHistory (concat ?pages)))
      = [HumanMessage ''Weather?'', AIMessage ''Sunny.'']"
    by (simp add: keptForHistory_def act_def toMessage_def bodyOf_def)
  have "generateMessagesFromPreviousActivities pagedWorld ''s1''
      = Some (map toMessage (rev (filter keptForHistory (concat ?pages))))"
    using history_reconstruction[OF s] by blast
  then have g1: "generateMessagesFromPreviousActivities pagedWorld ''s1''
      = Some [HumanMessage ''Weather?'', AIMessage ''Sunny.'']"
    by (simp only: v)
  have "generateMessagesFromPreviousActivities (scripted parisReplies) ''s1''
      = Some (map toMessage (rev (filter keptForHistory (concat [[]]))))"
    using history_reconstruction[OF q] by blast
  then have g2: "generateMessagesFromPreviousActivities (scripted parisReplies) ''s1'' = Some []"
    by simp
  show ?thesis by (intro conjI s g1 q g2)
qed

end
